theory Spec2Isabelle
  imports Main "HOL-Library.Word" "HOL-Library.Multiset"
begin

section \<open>Identities and values\<close>

text \<open>
  The frozen dataclasses of the program. Kinds, declared names and field names are
  strings.
\<close>

datatype ResourceReference = ResourceReference (ref_kind: string) (ref_name: string)

datatype ConfigKey = ConfigKey (ck_reference: ResourceReference) (ck_key: string)

text \<open>
  A dictionary key is a string (every key of a parsed document and of a configuration
  built by a constructor) or a \<open>ConfigKey\<close> object (what \<open>get_generated_id\<close> passes to
  \<open>dict.get\<close>). A string never equals a \<open>ConfigKey\<close>.
\<close>

datatype pykey = KStr string | KObj ConfigKey

text \<open>
  The values a configuration holds: the scalars, lists and mappings of a parsed document,
  and the deferred placeholders \<open>DeferredId\<close> (with its subclasses \<open>ClientId\<close>,
  \<open>GroupId\<close>, \<open>LoopId\<close>, \<open>StreamId\<close>, \<open>ClusterId\<close>), \<open>ApiKeyId\<close> and
  \<open>Remote\<close>. A mapping is an association list in insertion order, looked up with
  \<open>map_of\<close>. Floating-point numbers are not modelled.
\<close>

datatype pyval =
    VNone
  | VBool bool
  | VInt int
  | VStr string
  | VList "pyval list"
  | VDict "(pykey \<times> pyval) list"
  | VDeferredId ConfigKey
  | VApiKeyId ConfigKey
  | VRemote ResourceReference pyval

text \<open>
  The runtime identifier of a resource. Its \<open>id\<close> is whatever value the caller passes:
  a string wherever the program wraps it in \<open>str\<close>.
\<close>

datatype ResourceId = ResourceId (id_kind: string) (id_value: pyval)

datatype error = ValueError | KeyError | TypeError | AttributeError | RecursionError

text \<open>Truth value testing: the placeholders define neither \<open>__bool__\<close> nor \<open>__len__\<close>.\<close>

fun truthy :: "pyval \<Rightarrow> bool" where
  "truthy VNone = False"
| "truthy (VBool b) = b"
| "truthy (VInt i) = (i \<noteq> 0)"
| "truthy (VStr s) = (s \<noteq> [])"
| "truthy (VList xs) = (xs \<noteq> [])"
| "truthy (VDict kvs) = (kvs \<noteq> [])"
| "truthy (VDeferredId ck) = True"
| "truthy (VApiKeyId ck) = True"
| "truthy (VRemote r v) = True"

fun is_DeferredValue :: "pyval \<Rightarrow> bool" where
  "is_DeferredValue (VDeferredId ck) = True"
| "is_DeferredValue (VApiKeyId ck) = True"
| "is_DeferredValue (VRemote r v) = True"
| "is_DeferredValue v = False"

text \<open>\<open>v[k]\<close> for a string \<open>k\<close>: only a mapping can be subscripted by a string.\<close>

fun getitem :: "pyval \<Rightarrow> string \<Rightarrow> error + pyval" where
  "getitem (VDict kvs) k = (case map_of kvs (KStr k) of None \<Rightarrow> Inl KeyError | Some v \<Rightarrow> Inr v)"
| "getitem v k = Inl TypeError"

text \<open>\<open>v.get(k, d)\<close>: only a mapping has the method.\<close>

fun dict_get :: "pyval \<Rightarrow> pykey \<Rightarrow> pyval \<Rightarrow> error + pyval" where
  "dict_get (VDict kvs) k d = (case map_of kvs k of None \<Rightarrow> Inr d | Some v \<Rightarrow> Inr v)"
| "dict_get v k d = Inl AttributeError"

section \<open>Resources and the global indices\<close>

text \<open>
  The attribute \<open>parent_ref_or_id\<close>: \<open>None\<close>, a \<open>ResourceReference\<close>, or a \<open>ResourceId\<close>.
  Every such \<open>ResourceId\<close> is built as \<open>ResourceId(kind, str(...))\<close>, so that it holds a
  kind and a string.
\<close>

datatype parent_link = NoParent | ParentRef ResourceReference | ParentId string string

text \<open>
  A \<open>Resource\<close> object. Its class is its \<open>kind\<close>; \<open>valid\<close> is the attribute of the
  class \<open>ApiKey\<close>, \<open>True\<close> until an assignment.
\<close>

record resource =
  kind :: string
  name :: string
  config :: pyval
  parent_ref_or_id :: parent_link
  valid :: bool

record LocatedResource =
  path :: string
  index :: nat
  resource :: resource

text \<open>
  The module's global dictionaries, in insertion order where the program iterates over
  them, and the identifier source: \<open>os.urandom\<close> reads the next bytes of a stream.
\<close>

record state =
  existing_resources :: "(ResourceReference \<times> LocatedResource) list"
  compiled_resources :: "(ResourceReference \<times> resource) list"
  generated_values :: "ConfigKey \<rightharpoonup> string"
  id_to_reference :: "ResourceId \<rightharpoonup> ResourceReference"
  urandom_source :: "nat \<Rightarrow> 8 word"
  urandom_pos :: nat

definition reference :: "resource \<Rightarrow> ResourceReference" where
  "reference r = ResourceReference (kind r) (name r)"

section \<open>Identifier allocation\<close>

definition hex_digit :: "nat \<Rightarrow> char" where
  "hex_digit n = ''0123456789abcdef'' ! (n mod 16)"

text \<open>\<open>"{:02x}".format(byte)\<close>\<close>

definition format_02x :: "8 word \<Rightarrow> string" where
  "format_02x b = [hex_digit (unat b div 16), hex_digit (unat b mod 16)]"

definition os_urandom :: "nat \<Rightarrow> state \<Rightarrow> 8 word list \<times> state" where
  "os_urandom n st =
     (map (urandom_source st) [urandom_pos st ..< urandom_pos st + n],
      st\<lparr>urandom_pos := urandom_pos st + n\<rparr>)"

definition random_id :: "state \<Rightarrow> string \<times> state" where
  "random_id st = (case os_urandom 20 st of (random_bytes, st') \<Rightarrow>
     (concat (map format_02x random_bytes), st'))"

text \<open>
  The lookup \<open>r.config["spec"].get(configKey)\<close> of \<open>get_generated_id\<close>: the key is the
  \<open>ConfigKey\<close> object itself.
\<close>

definition spec_get :: "resource \<Rightarrow> ConfigKey \<Rightarrow> error + pyval" where
  "spec_get r ck = (case getitem (config r) ''spec'' of
       Inl e \<Rightarrow> Inl e
     | Inr spec \<Rightarrow> dict_get spec (KObj ck) VNone)"

definition allocate_id :: "ConfigKey \<Rightarrow> string \<Rightarrow> state \<Rightarrow> (error + pyval) \<times> state" where
  "allocate_id configKey prefix st = (case random_id st of (rid, st') \<Rightarrow>
     (let new_id = prefix @ rid
      in (Inr (VStr new_id),
          st'\<lparr>generated_values := (generated_values st')(configKey \<mapsto> new_id)\<rparr>)))"

definition from_existing :: "ConfigKey \<Rightarrow> string \<Rightarrow> state \<Rightarrow> (error + pyval) \<times> state" where
  "from_existing configKey prefix st =
     (case map_of (existing_resources st) (ck_reference configKey) of
        None \<Rightarrow> allocate_id configKey prefix st
      | Some existing \<Rightarrow>
          (case spec_get (resource existing) configKey of
             Inl e \<Rightarrow> (Inl e, st)
           | Inr result \<Rightarrow>
               if truthy result then (Inr result, st)
               else allocate_id configKey prefix st))"

definition from_generated :: "ConfigKey \<Rightarrow> string \<Rightarrow> state \<Rightarrow> (error + pyval) \<times> state" where
  "from_generated configKey prefix st =
     (case generated_values st configKey of
        None \<Rightarrow> from_existing configKey prefix st
      | Some generated \<Rightarrow>
          if generated \<noteq> [] then (Inr (VStr generated), st)
          else from_existing configKey prefix st)"

definition get_generated_id :: "ConfigKey \<Rightarrow> string \<Rightarrow> state \<Rightarrow> (error + pyval) \<times> state" where
  "get_generated_id configKey prefix st =
     (case map_of (compiled_resources st) (ck_reference configKey) of
        None \<Rightarrow> from_generated configKey prefix st
      | Some created \<Rightarrow>
          (case spec_get created configKey of
             Inl e \<Rightarrow> (Inl e, st)
           | Inr result \<Rightarrow>
               if truthy result \<and> \<not> is_DeferredValue result then (Inr result, st)
               else from_generated configKey prefix st))"


text \<open>
  Lists and mappings are unhashable: a \<open>ResourceId\<close> holding one cannot be a
  dictionary key.
\<close>

fun hashable :: "pyval \<Rightarrow> bool" where
  "hashable (VList xs) = False"
| "hashable (VDict kvs) = False"
| "hashable v = True"

text \<open>\<open>DeferredId.link\<close>, inherited by \<open>ClientId\<close>, \<open>GroupId\<close>, \<open>LoopId\<close>, \<open>StreamId\<close>
  and \<open>ClusterId\<close>.\<close>

definition DeferredId_link :: "ConfigKey \<Rightarrow> state \<Rightarrow> (error + pyval) \<times> state" where
  "DeferredId_link configKey st =
     (case get_generated_id configKey (ref_name (ck_reference configKey) @ ''-'') st of
        (Inl e, st') \<Rightarrow> (Inl e, st')
      | (Inr result, st') \<Rightarrow>
          (let id = ResourceId (ref_kind (ck_reference configKey)) result
           in if hashable result
              then (Inr result,
                    st'\<lparr>id_to_reference := (id_to_reference st')(id \<mapsto> ck_reference configKey)\<rparr>)
              else (Inl TypeError, st')))"

definition ApiKeyId_link :: "ConfigKey \<Rightarrow> state \<Rightarrow> (error + pyval) \<times> state" where
  "ApiKeyId_link configKey st = get_generated_id configKey [] st"

text \<open>Resolving an identifier placeholder; any other value is left as it is.\<close>

fun link_id :: "pyval \<Rightarrow> state \<Rightarrow> (error + pyval) \<times> state" where
  "link_id (VDeferredId ck) st = DeferredId_link ck st"
| "link_id (VApiKeyId ck) st = ApiKeyId_link ck st"
| "link_id v st = (Inr v, st)"

text \<open>The state after resolving a sequence of values, one after the other.\<close>

fun link_ids :: "pyval list \<Rightarrow> state \<Rightarrow> state" where
  "link_ids [] st = st"
| "link_ids (v # vs) st = link_ids vs (snd (link_id v st))"

section \<open>Namespace resolution\<close>

text \<open>The property \<open>Resource.namespace\<close>: \<open>self.config["metadata"].get("namespace")\<close>.\<close>

definition namespace :: "resource \<Rightarrow> error + pyval" where
  "namespace r = (case getitem (config r) ''metadata'' of
       Inl e \<Rightarrow> Inl e
     | Inr metadata \<Rightarrow> dict_get metadata (KStr ''namespace'') VNone)"

definition get_resource_by_reference :: "state \<Rightarrow> ResourceReference \<Rightarrow> resource option" where
  "get_resource_by_reference st ref =
     (case map_of (compiled_resources st) ref of
        Some created \<Rightarrow> Some created
      | None \<Rightarrow>
          (case map_of (existing_resources st) ref of
             Some existing \<Rightarrow> Some (resource existing)
           | None \<Rightarrow> None))"

definition require_resource_by_reference :: "state \<Rightarrow> ResourceReference \<Rightarrow> error + resource" where
  "require_resource_by_reference st ref =
     (case get_resource_by_reference st ref of
        None \<Rightarrow> Inl ValueError
      | Some r \<Rightarrow> Inr r)"

text \<open>
  The property \<open>Resource.parent\<close>. A parent given as an identifier is looked up with
  \<open>id_to_reference[...]\<close>, which raises \<open>KeyError\<close> for an unknown identifier.
\<close>

definition parent :: "state \<Rightarrow> resource \<Rightarrow> error + resource option" where
  "parent st r =
     (case parent_ref_or_id r of
        NoParent \<Rightarrow> Inr None
      | ParentRef ref \<Rightarrow> Inr (get_resource_by_reference st ref)
      | ParentId k i \<Rightarrow>
          (case id_to_reference st (ResourceId k (VStr i)) of
             None \<Rightarrow> Inl KeyError
           | Some ref \<Rightarrow> Inr (get_resource_by_reference st ref)))"

text \<open>
  The test at the head of the loop of \<open>Remote.link\<close>: a truthy namespace that is a string
  is returned, and so is the truthy \<open>remote\<close> of a namespace that is a \<open>Remote\<close>.
\<close>

fun known_namespace :: "pyval \<Rightarrow> pyval option" where
  "known_namespace (VStr s) = (if s \<noteq> [] then Some (VStr s) else None)"
| "known_namespace (VRemote k remote) = (if truthy remote then Some remote else None)"
| "known_namespace v = None"

text \<open>
  The loop \<open>while True\<close> of \<open>Remote.link\<close>, from the resource it has reached. \<open>None\<close> is
  a walk that never returns.
\<close>

partial_function (option) walk_up :: "state \<Rightarrow> resource \<Rightarrow> (error + pyval) option" where
  "walk_up st r =
     (case namespace r of
        Inl e \<Rightarrow> Some (Inl e)
      | Inr ns \<Rightarrow>
          (case known_namespace ns of
             Some v \<Rightarrow> Some (Inr v)
           | None \<Rightarrow>
               (case parent st r of
                  Inl e \<Rightarrow> Some (Inl e)
                | Inr None \<Rightarrow> Some (Inl ValueError)
                | Inr (Some p) \<Rightarrow> walk_up st p)))"

text \<open>\<open>Remote.link\<close> of the placeholder \<open>Remote(resourceKey, remote)\<close>.\<close>

definition Remote_link :: "state \<Rightarrow> ResourceReference \<Rightarrow> pyval \<Rightarrow> (error + pyval) option" where
  "Remote_link st resource_reference remote =
     (if truthy remote then Some (Inr remote)
      else (case require_resource_by_reference st resource_reference of
              Inl e \<Rightarrow> Some (Inl e)
            | Inr r \<Rightarrow> walk_up st r))"

section \<open>Storage paths of new resources\<close>

text \<open>\<open>os.path.join\<close> on POSIX, for two components and for a list of further components.\<close>

definition join2 :: "string \<Rightarrow> string \<Rightarrow> string" where
  "join2 a b =
     (if b \<noteq> [] \<and> hd b = CHR ''/'' then b
      else if a = [] \<or> last a = CHR ''/'' then a @ b
      else a @ ''/'' @ b)"

definition os_path_join :: "string \<Rightarrow> string list \<Rightarrow> string" where
  "os_path_join a ps = foldl join2 a ps"

text \<open>A component of a path has to be a string.\<close>

fun path_component :: "pyval \<Rightarrow> error + string" where
  "path_component (VStr s) = Inr s"
| "path_component v = Inl TypeError"

text \<open>\<open>s + v\<close> for a string \<open>s\<close>: only a string can be concatenated to a string.\<close>

fun str_add :: "string \<Rightarrow> pyval \<Rightarrow> error + string" where
  "str_add s (VStr t) = Inr (s @ t)"
| "str_add s v = Inl TypeError"

text \<open>\<open>suffix or ""\<close> for the integer \<open>suffix\<close>.\<close>

definition suffix_or_empty :: "nat \<Rightarrow> pyval" where
  "suffix_or_empty suffix = (if suffix \<noteq> 0 then VInt (int suffix) else VStr [])"

text \<open>
  The loop of \<open>create_resource_path\<close>, entered with the current \<open>suffix\<close>; \<open>exists\<close> is
  \<open>os.path.exists\<close> on the file system of the run.
\<close>

function create_resource_path_from :: "(string \<Rightarrow> bool) \<Rightarrow> string \<Rightarrow> nat \<Rightarrow> error + string" where
  "create_resource_path_from exists prefix suffix =
     (case str_add prefix (suffix_or_empty suffix) of
        Inl e \<Rightarrow> Inl e
      | Inr p \<Rightarrow>
          (let result = p @ ''.yaml''
           in if \<not> exists result then Inr result
              else create_resource_path_from exists prefix (suffix + 1)))"
  by pat_completeness auto
termination
  by (relation "measure (\<lambda>(exists, prefix, suffix). 1 - suffix)")
     (auto simp: suffix_or_empty_def split: if_splits)

definition create_resource_path :: "(string \<Rightarrow> bool) \<Rightarrow> string \<Rightarrow> pyval \<Rightarrow> error + string" where
  "create_resource_path exists folder conf =
     (case getitem conf ''kind'' of
        Inl e \<Rightarrow> Inl e
      | Inr k \<Rightarrow>
          (case getitem conf ''metadata'' of
             Inl e \<Rightarrow> Inl e
           | Inr metadata \<Rightarrow>
               (case getitem metadata ''name'' of
                  Inl e \<Rightarrow> Inl e
                | Inr n \<Rightarrow>
                    (case path_component k of
                       Inl e \<Rightarrow> Inl e
                     | Inr ks \<Rightarrow>
                         (case path_component n of
                            Inl e \<Rightarrow> Inl e
                          | Inr ns \<Rightarrow>
                              create_resource_path_from exists
                                (os_path_join folder [ks, ns]) 0)))))"

text \<open>
  The choice of the folder in \<open>link_resources\<close> for a compiled resource that has no
  persisted entry: the secrets location for an \<open>ApiKey\<close>, the resources location for
  any other kind.
\<close>

definition new_resource_path ::
  "(string \<Rightarrow> bool) \<Rightarrow> string \<Rightarrow> string \<Rightarrow> ResourceReference \<Rightarrow> resource \<Rightarrow> error + string" where
  "new_resource_path exists resources_path secrets_path ref target_resource =
     (if ref_kind ref = ''ApiKey''
      then create_resource_path exists secrets_path (config target_resource)
      else create_resource_path exists resources_path (config target_resource))"

section \<open>Duplicate detection\<close>
























section \<open>Auxiliary notions for the identifier proofs\<close>

text \<open>What the first and the third step of \<open>get_generated_id\<close> find.\<close>

definition compiled_lookup :: "ConfigKey \<Rightarrow> state \<Rightarrow> error + pyval option" where
  "compiled_lookup ck st =
     (case map_of (compiled_resources st) (ck_reference ck) of
        None \<Rightarrow> Inr None
      | Some created \<Rightarrow>
          (case spec_get created ck of
             Inl e \<Rightarrow> Inl e
           | Inr result \<Rightarrow>
               if truthy result \<and> \<not> is_DeferredValue result then Inr (Some result) else Inr None))"

definition existing_lookup :: "ConfigKey \<Rightarrow> state \<Rightarrow> error + pyval option" where
  "existing_lookup ck st =
     (case map_of (existing_resources st) (ck_reference ck) of
        None \<Rightarrow> Inr None
      | Some existing \<Rightarrow>
          (case spec_get (resource existing) ck of
             Inl e \<Rightarrow> Inl e
           | Inr result \<Rightarrow> if truthy result then Inr (Some result) else Inr None))"

definition memo_free :: "ConfigKey \<Rightarrow> state \<Rightarrow> bool" where
  "memo_free ck st = (generated_values st ck = None \<or> generated_values st ck = Some [])"

text \<open>The key \<open>ck\<close> resolves to \<open>v\<close> in \<open>st\<close> without allocating.\<close>

definition settled :: "ConfigKey \<Rightarrow> pyval \<Rightarrow> state \<Rightarrow> bool" where
  "settled ck v st =
     (compiled_lookup ck st = Inr (Some v) \<or>
      compiled_lookup ck st = Inr None \<and>
        ((\<exists>g. generated_values st ck = Some g \<and> g \<noteq> [] \<and> v = VStr g) \<or>
         memo_free ck st \<and> existing_lookup ck st = Inr (Some v)))"

text \<open>
  A second run: the client \<open>acme\<close> was applied before and its document, with the literal
  \<open>clientId\<close> of that run, has been read back into \<open>existing_resources\<close>; nothing has been
  compiled or generated yet.
\<close>

definition acme :: ResourceReference where
  "acme = ResourceReference ''Client'' ''acme''"

definition acme_persisted :: resource where
  "acme_persisted = \<lparr>kind = ''Client'', name = ''acme'',
     config = VDict [(KStr ''apiVersion'', VStr ''thatone.ai/v1''), (KStr ''kind'', VStr ''Client''),
       (KStr ''metadata'', VDict [(KStr ''name'', VStr ''acme''),
          (KStr ''namespace'', VStr ''https://acme.example'')]),
       (KStr ''spec'', VDict [(KStr ''clientId'', VStr ''acme-0123'')])],
     parent_ref_or_id = NoParent, valid = True\<rparr>"

definition second_run :: state where
  "second_run = \<lparr>existing_resources =
       [(acme, \<lparr>path = ''/r/Client/acme.yaml'', index = 0, resource = acme_persisted\<rparr>)],
     compiled_resources = [], generated_values = Map.empty,
     id_to_reference = [ResourceId ''Client'' (VStr ''acme-0123'') \<mapsto> acme],
     urandom_source = (\<lambda>i. 0), urandom_pos = 0\<rparr>"

section \<open>Auxiliary notions for namespace resolution\<close>

text \<open>
  One turn of the loop of \<open>Remote.link\<close> that does not leave it: the resource has no known
  namespace and has a parent, to which the loop moves.
\<close>

definition goes_up :: "state \<Rightarrow> resource \<Rightarrow> resource option" where
  "goes_up st r =
     (case namespace r of
        Inl e \<Rightarrow> None
      | Inr ns \<Rightarrow>
          (case known_namespace ns of
             Some v \<Rightarrow> None
           | None \<Rightarrow> (case parent st r of Inr (Some p) \<Rightarrow> Some p | _ \<Rightarrow> None)))"

text \<open>The upward walk from \<open>r\<close> leaves the loop after finitely many turns.\<close>

inductive chain_ends :: "state \<Rightarrow> resource \<Rightarrow> bool" where
  stop: "goes_up st r = None \<Longrightarrow> chain_ends st r"
| up: "goes_up st r = Some p \<Longrightarrow> chain_ends st p \<Longrightarrow> chain_ends st r"

code_pred chain_ends .

text \<open>
  The object that \<open>Client("ResourceDefs", config)\<close> builds from a bundle member with the
  keys \<open>name\<close>, \<open>parentName\<close> and \<open>remote\<close>, the last two optional, and no other key.
\<close>

definition ClientId :: "string \<Rightarrow> pyval" where
  "ClientId n = VDeferredId (ConfigKey (ResourceReference ''Client'' n) ''clientId'')"

definition bundle_client :: "string \<Rightarrow> string option \<Rightarrow> pyval \<Rightarrow> resource" where
  "bundle_client n parentName remote =
     \<lparr>kind = ''Client'', name = n,
      config = VDict
        [(KStr ''apiVersion'', VStr ''thatone.ai/v1''),
         (KStr ''kind'', VStr ''Client''),
         (KStr ''metadata'', VDict
            [(KStr ''name'', VStr n),
             (KStr ''namespace'', VRemote (ResourceReference ''Client'' n) remote)]),
         (KStr ''spec'', VDict
            [(KStr ''clientId'', ClientId n),
             (KStr ''parentId'', (case parentName of None \<Rightarrow> VNone | Some p \<Rightarrow> ClientId p)),
             (KStr ''dacTags'', VList []),
             (KStr ''dacDefaultRead'', VList []),
             (KStr ''dacDefaultWrite'', VList []),
             (KStr ''dacDefaultExecute'', VList []),
             (KStr ''dacWhitelistRead'', VList []),
             (KStr ''dacWhitelistWrite'', VList []),
             (KStr ''dacWhitelistExecute'', VList []),
             (KStr ''dacBlacklistRead'', VList []),
             (KStr ''dacBlacklistWrite'', VList []),
             (KStr ''dacBlacklistExecute'', VList []),
             (KStr ''macTags'', VList []),
             (KStr ''macWhitelistRead'', VList []),
             (KStr ''macWhitelistWrite'', VList []),
             (KStr ''macWhitelistExecute'', VList []),
             (KStr ''macBlacklistRead'', VList []),
             (KStr ''macBlacklistWrite'', VList []),
             (KStr ''macBlacklistExecute'', VList [])])],
      parent_ref_or_id =
        (case parentName of None \<Rightarrow> NoParent | Some p \<Rightarrow> ParentRef (ResourceReference ''Client'' p)),
      valid = True\<rparr>"

definition compiled_only :: "resource list \<Rightarrow> state" where
  "compiled_only rs =
     \<lparr>existing_resources = [], compiled_resources = map (\<lambda>r. (reference r, r)) rs,
      generated_values = Map.empty, id_to_reference = Map.empty,
      urandom_source = (\<lambda>i. 0), urandom_pos = 0\<rparr>"

text \<open>
  Two clients of one bundle that name each other as parent, neither with a \<open>remote\<close>:
  \<open>clients: [{name: a, parentName: b}, {name: b, parentName: a}]\<close>.
\<close>

definition client_a :: resource where
  "client_a = bundle_client ''a'' (Some ''b'') VNone"

definition client_b :: resource where
  "client_b = bundle_client ''b'' (Some ''a'') VNone"

definition cyclic_parents :: state where
  "cyclic_parents = compiled_only [client_a, client_b]"

text \<open>
  A client with a \<open>remote\<close> and a client below it without one:
  \<open>clients: [{name: root, remote: https://root.example}, {name: leaf, parentName: root}]\<close>.
\<close>

definition client_root :: resource where
  "client_root = bundle_client ''root'' None (VStr ''https://root.example'')"

definition client_leaf :: resource where
  "client_leaf = bundle_client ''leaf'' (Some ''root'') VNone"

definition rooted_parents :: state where
  "rooted_parents = compiled_only [client_root, client_leaf]"

text \<open>The resource reached from \<open>r\<close> after \<open>n\<close> turns of the loop that move to a parent.\<close>

fun climb :: "nat \<Rightarrow> state \<Rightarrow> resource \<Rightarrow> resource option" where
  "climb 0 st r = Some r"
| "climb (Suc n) st r = (case goes_up st r of None \<Rightarrow> None | Some p \<Rightarrow> climb n st p)"

text \<open>How the loop of \<open>Remote.link\<close> is left at the resource \<open>a\<close>, and with what.\<close>

inductive leaves :: "state \<Rightarrow> resource \<Rightarrow> error + pyval \<Rightarrow> bool" where
  no_metadata: "namespace a = Inl e \<Longrightarrow> leaves st a (Inl e)"
| literal: "namespace a = Inr (VStr s) \<Longrightarrow> s \<noteq> [] \<Longrightarrow> leaves st a (Inr (VStr s))"
| preset: "namespace a = Inr (VRemote k remote) \<Longrightarrow> truthy remote \<Longrightarrow> leaves st a (Inr remote)"
| bad_parent:
    "namespace a = Inr ns \<Longrightarrow> known_namespace ns = None \<Longrightarrow> parent st a = Inl e \<Longrightarrow>
     leaves st a (Inl e)"
| no_parent:
    "namespace a = Inr ns \<Longrightarrow> known_namespace ns = None \<Longrightarrow> parent st a = Inr None \<Longrightarrow>
     leaves st a (Inl ValueError)"

code_pred leaves .

text \<open>The number of known resources, and the known resources themselves.\<close>

definition n_known :: "state \<Rightarrow> nat" where
  "n_known st = length (compiled_resources st) + length (existing_resources st)"

definition known_resources :: "state \<Rightarrow> resource set" where
  "known_resources st =
     snd ` set (compiled_resources st) \<union> (\<lambda>x. resource (snd x)) ` set (existing_resources st)"







section \<open>A new resource whose path is taken\<close>

text \<open>
  The bundle client \<open>acme\<close>, new in this run, and a file system on which
  \<open>/state/resources/Client/acme.yaml\<close> exists already (a file that declares no resource
  of that reference) and no other path does.
\<close>

definition acme_client :: resource where
  "acme_client = bundle_client ''acme'' None (VStr ''https://acme.example'')"

definition occupied :: "string \<Rightarrow> bool" where
  "occupied p = (p = ''/state/resources/Client/acme.yaml'')"

definition nothing_exists :: "string \<Rightarrow> bool" where
  "nothing_exists p = False"

section \<open>Auxiliary notions for duplicate detection\<close>



















section \<open>Identifier resolution\<close>

lemma length_format_02x: "length (format_02x b) = 2"
  by (simp add: format_02x_def)

lemma length_concat_format: "length (concat (map (\<lambda>x. format_02x (f x)) xs)) = 2 * length xs"
  by (induction xs) (simp_all add: length_format_02x)

lemma random_id_length: "length (fst (random_id st)) = 40"
  by (simp add: random_id_def os_urandom_def length_concat_format comp_def)

lemma random_id_nonempty: "random_id st = (rid, st') \<Longrightarrow> rid \<noteq> []"
  using random_id_length [of st] by auto

lemma random_id_state: "random_id st = (rid, st') \<Longrightarrow>
  st' = st\<lparr>urandom_pos := urandom_pos st + 20\<rparr>"
  by (auto simp: random_id_def os_urandom_def)

lemma get_generated_id_alt:
  "get_generated_id ck p st = (case compiled_lookup ck st of
      Inl e \<Rightarrow> (Inl e, st) | Inr (Some v) \<Rightarrow> (Inr v, st) | Inr None \<Rightarrow> from_generated ck p st)"
  by (simp add: get_generated_id_def compiled_lookup_def split: option.split sum.split)

lemma from_existing_alt:
  "from_existing ck p st = (case existing_lookup ck st of
      Inl e \<Rightarrow> (Inl e, st) | Inr (Some v) \<Rightarrow> (Inr v, st) | Inr None \<Rightarrow> allocate_id ck p st)"
  by (simp add: from_existing_def existing_lookup_def split: option.split sum.split)

lemma allocate_id_result:
  assumes "allocate_id ck p st = (r, st1)"
  shows "\<exists>g. g \<noteq> [] \<and> r = Inr (VStr g) \<and>
     st1 = st\<lparr>urandom_pos := urandom_pos st + 20, generated_values := (generated_values st)(ck \<mapsto> g)\<rparr>"
proof -
  obtain rid st' where rs: "random_id st = (rid, st')" by (cases "random_id st")
  from random_id_state [OF rs] random_id_nonempty [OF rs] assms rs
  show ?thesis by (auto simp: allocate_id_def Let_def)
qed


lemma from_generated_alt:
  "from_generated ck p st = (case generated_values st ck of
      None \<Rightarrow> from_existing ck p st
    | Some g \<Rightarrow> if g \<noteq> [] then (Inr (VStr g), st) else from_existing ck p st)"
  by (simp add: from_generated_def)

lemma lookup_urandom [simp]:
  "compiled_lookup ck (st\<lparr>urandom_pos := n, generated_values := g\<rparr>) = compiled_lookup ck st"
  "existing_lookup ck (st\<lparr>urandom_pos := n, generated_values := g\<rparr>) = existing_lookup ck st"
  by (simp_all add: compiled_lookup_def existing_lookup_def)

lemma settled_returns: "settled ck v st \<Longrightarrow> get_generated_id ck p st = (Inr v, st)"
  unfolding settled_def memo_free_def
  by (elim disjE conjE exE)
     (simp_all add: get_generated_id_alt from_generated_alt from_existing_alt)

lemma call_cases:
  "get_generated_id ck p st = (r, st1) \<Longrightarrow>
     st1 = st \<and> ((\<exists>e. r = Inl e) \<or> (\<exists>v. r = Inr v \<and> settled ck v st)) \<or>
     compiled_lookup ck st = Inr None \<and> memo_free ck st \<and> existing_lookup ck st = Inr None \<and>
       (\<exists>g. g \<noteq> [] \<and> r = Inr (VStr g) \<and>
          st1 = st\<lparr>urandom_pos := urandom_pos st + 20,
                   generated_values := (generated_values st)(ck \<mapsto> g)\<rparr>)"
proof -
  assume a: "get_generated_id ck p st = (r, st1)"
  show ?thesis
  proof (cases "compiled_lookup ck st")
    case (Inl e)
    with a show ?thesis by (simp add: get_generated_id_alt) blast
  next
    case (Inr o1)
    show ?thesis
    proof (cases o1)
      case (Some v)
      with a Inr show ?thesis by (auto simp: get_generated_id_alt settled_def)
    next
      case None
      note c = Inr [unfolded None]
      show ?thesis
      proof (cases "memo_free ck st")
        case False
        then obtain g where g: "generated_values st ck = Some g" "g \<noteq> []"
          by (auto simp: memo_free_def)
        with a c show ?thesis
          by (auto simp: get_generated_id_alt from_generated_alt settled_def)
      next
        case True
        with a c have fe: "from_existing ck p st = (r, st1)"
          by (auto simp: get_generated_id_alt from_generated_alt memo_free_def)
        show ?thesis
        proof (cases "existing_lookup ck st")
          case (Inl e)
          with fe show ?thesis by (simp add: from_existing_alt) blast
        next
          case (Inr o2)
          show ?thesis
          proof (cases o2)
            case (Some v)
            with fe Inr c True show ?thesis
              by (auto simp: from_existing_alt settled_def)
          next
            case None
            with fe Inr have "allocate_id ck p st = (r, st1)"
              by (simp add: from_existing_alt)
            from allocate_id_result [OF this] c True Inr None show ?thesis by blast
          qed
        qed
      qed
    qed
  qed
qed

lemma call_settles: "get_generated_id ck p st = (Inr v, st1) \<Longrightarrow> settled ck v st1"
  by (drule call_cases) (auto simp: settled_def)

lemma call_preserves:
  assumes "settled ck v st" "get_generated_id ck' p st = (r, st1)"
  shows "settled ck v st1"
proof (cases "ck' = ck")
  case True
  with assms settled_returns [of ck v st p] show ?thesis by simp
next
  case False
  from call_cases [OF assms(2)] assms(1) False show ?thesis
    by (auto simp: settled_def memo_free_def)
qed


lemma settled_id_to_reference [simp]:
  "settled ck v (st\<lparr>id_to_reference := m\<rparr>) = settled ck v st"
  by (simp add: settled_def memo_free_def compiled_lookup_def existing_lookup_def)

lemma link_id_preserves: "settled ck v st \<Longrightarrow> settled ck v (snd (link_id x st))"
proof (cases x)
  case (VDeferredId ck')
  assume s: "settled ck v st"
  obtain r st1 where g: "get_generated_id ck' (ref_name (ck_reference ck') @ ''-'') st = (r, st1)"
    by (cases "get_generated_id ck' (ref_name (ck_reference ck') @ ''-'') st")
  from call_preserves [OF s g] g VDeferredId show ?thesis
    by (cases r) (simp_all add: DeferredId_link_def Let_def)
next
  case (VApiKeyId ck')
  assume s: "settled ck v st"
  obtain r st1 where g: "get_generated_id ck' [] st = (r, st1)"
    by (cases "get_generated_id ck' [] st")
  from call_preserves [OF s g] g VApiKeyId show ?thesis
    by (simp add: ApiKeyId_link_def)
qed simp_all

lemma link_ids_preserves: "settled ck v st \<Longrightarrow> settled ck v (link_ids xs st)"
  by (induction xs arbitrary: st) (simp_all add: link_id_preserves)

text \<open>
  Claim C9: resolving the same \<open>ConfigKey\<close> twice in one run returns the same value. Once
  \<open>get_generated_id\<close> has returned \<open>v\<close> for a key, whether found or freshly allocated, any
  later call for that key, under any prefix and after any number of other identifier
  resolutions, returns \<open>v\<close> again and leaves the state as it is: nothing is allocated a
  second time.
\<close>

theorem get_generated_id_idempotent:
  assumes "get_generated_id ck p st = (Inr v, st1)"
  shows "get_generated_id ck p' (link_ids xs st1) = (Inr v, link_ids xs st1)"
  by (rule settled_returns [OF link_ids_preserves [OF call_settles [OF assms]]])

theorem get_generated_id_idempotent_witness:
  "fst (get_generated_id (ConfigKey acme ''clientId'') ''acme-'' second_run) =
     Inr (VStr ''acme-0000000000000000000000000000000000000000'') \<and>
   fst (get_generated_id (ConfigKey acme ''clientId'') ''other-''
     (link_ids [VApiKeyId (ConfigKey (ResourceReference ''ApiKey'' ''acme-key'') ''apiKey'')]
        (snd (get_generated_id (ConfigKey acme ''clientId'') ''acme-'' second_run)))) =
     Inr (VStr ''acme-0000000000000000000000000000000000000000'')"
proof -
  have h: "fst (get_generated_id (ConfigKey acme ''clientId'') ''acme-'' second_run) =
     Inr (VStr ''acme-0000000000000000000000000000000000000000'')"
    by code_simp
  then have "get_generated_id (ConfigKey acme ''clientId'') ''acme-'' second_run =
     (Inr (VStr ''acme-0000000000000000000000000000000000000000''),
      snd (get_generated_id (ConfigKey acme ''clientId'') ''acme-'' second_run))"
    by (simp add: prod_eq_iff)
  from get_generated_id_idempotent [OF this] have
    "fst (get_generated_id (ConfigKey acme ''clientId'') ''other-''
       (link_ids [VApiKeyId (ConfigKey (ResourceReference ''ApiKey'' ''acme-key'') ''apiKey'')]
          (snd (get_generated_id (ConfigKey acme ''clientId'') ''acme-'' second_run)))) =
     Inr (VStr ''acme-0000000000000000000000000000000000000000'')"
    by (simp only: fst_conv)
  with h show ?thesis by (rule conjI)
qed

text \<open>
  Claim C1: a value persisted by an earlier run is to be reused. In \<open>second_run\<close> the
  persisted client carries \<open>clientId = acme-0123\<close>, and nothing was compiled or generated;
  the lookup in the persisted specification is keyed by the \<open>ConfigKey\<close> object, finds
  nothing under the string key \<open>clientId\<close>, and a fresh identifier is allocated from the
  identifier source.
\<close>

theorem get_generated_id_ignores_persisted:
  "map_of (existing_resources second_run) acme = Some \<lparr>path = ''/r/Client/acme.yaml'', index = 0,
      resource = acme_persisted\<rparr> \<and>
   getitem (config acme_persisted) ''spec'' = Inr (VDict [(KStr ''clientId'', VStr ''acme-0123'')]) \<and>
   fst (get_generated_id (ConfigKey acme ''clientId'') ''acme-'' second_run) =
     Inr (VStr ''acme-0000000000000000000000000000000000000000'')"
  by code_simp

section \<open>Namespace resolution: termination and inheritance\<close>

lemma walk_up_up: "goes_up st r = Some p \<Longrightarrow> walk_up st r = walk_up st p"
  by (subst walk_up.simps)
     (auto simp: goes_up_def split: sum.splits option.splits)

lemma leaves_stops: "leaves st a x \<Longrightarrow> goes_up st a = None"
  by (induction rule: leaves.induct) (simp_all add: goes_up_def)

lemma leaves_walk_up: "leaves st a x \<Longrightarrow> walk_up st a = Some x"
  by (induction rule: leaves.induct) (subst walk_up.simps, simp)+

lemma stops_leaves:
  assumes "goes_up st a = None"
  shows "\<exists>x. leaves st a x"
proof (cases "namespace a")
  case (Inl e)
  then show ?thesis by (blast intro: leaves.no_metadata)
next
  case (Inr ns)
  show ?thesis
  proof (cases "known_namespace ns")
    case (Some v)
    with Inr show ?thesis
      by (cases ns) (auto split: if_splits intro: leaves.literal leaves.preset)
  next
    case None
    with Inr assms show ?thesis
      by (cases "parent st a")
         (auto simp: goes_up_def split: option.splits intro: leaves.bad_parent leaves.no_parent)
  qed
qed

lemma climb_walk_up:
  "climb m st r = Some a \<Longrightarrow> leaves st a x \<Longrightarrow> walk_up st r = Some x"
proof (induction m arbitrary: r)
  case 0
  then show ?case by (simp add: leaves_walk_up)
next
  case (Suc m)
  then obtain p where p: "goes_up st r = Some p" "climb m st p = Some a"
    by (auto split: option.splits)
  from Suc.IH [OF p(2) Suc.prems(2)] walk_up_up [OF p(1)] show ?case by simp
qed

lemma walk_up_climb:
  assumes "walk_up st r = Some x"
  shows "\<exists>m a. climb m st r = Some a \<and> leaves st a x"
proof (rule walk_up.raw_induct
    [where P = "\<lambda>st r x. \<exists>m a. climb m st r = Some a \<and> leaves st a x", OF _ assms], goal_cases)
  case (1 f st r x)
  show ?case
  proof (cases "goes_up st r")
    case None
    from stops_leaves [OF this] obtain y where y: "leaves st r y" by blast
    from leaves_walk_up [OF y] have "walk_up st r = Some y" .
    moreover from None 1(2) have "walk_up st r = Some x"
      by (subst walk_up.simps) (auto simp: goes_up_def split: sum.splits option.splits)
    ultimately have "y = x" by simp
    with y have "climb 0 st r = Some r \<and> leaves st r x" by simp
    then show ?thesis by blast
  next
    case (Some p)
    with 1(2) have "f st p = Some x"
      by (auto simp: goes_up_def split: sum.splits option.splits)
    from 1(1) [OF this] obtain m a where "climb m st p = Some a" "leaves st a x" by blast
    with Some have "climb (Suc m) st r = Some a \<and> leaves st a x" by simp
    then show ?thesis by blast
  qed
qed

lemma climb_add:
  "climb (i + j) st r = (case climb i st r of None \<Rightarrow> None | Some b \<Rightarrow> climb j st b)"
  by (induction i arbitrary: r) (simp_all split: option.splits)

lemma climb_defined_below:
  "climb m st r = Some a \<Longrightarrow> i \<le> m \<Longrightarrow> \<exists>b. climb i st r = Some b"
  using climb_add [of i "m - i" st r] by (auto split: option.splits)

lemma lookup_known: "get_resource_by_reference st k = Some r \<Longrightarrow> r \<in> known_resources st"
  by (auto simp: get_resource_by_reference_def known_resources_def
      split: option.splits dest!: map_of_SomeD intro: rev_image_eqI)

lemma parent_known: "parent st r = Inr (Some p) \<Longrightarrow> p \<in> known_resources st"
  by (auto simp: parent_def split: parent_link.splits option.splits dest: lookup_known)

lemma goes_up_known: "goes_up st r = Some p \<Longrightarrow> p \<in> known_resources st"
  by (auto simp: goes_up_def split: sum.splits option.splits dest: parent_known)

lemma climb_known:
  "r \<in> known_resources st \<Longrightarrow> climb m st r = Some a \<Longrightarrow> a \<in> known_resources st"
  by (induction m arbitrary: r) (auto split: option.splits dest: goes_up_known)

lemma card_known: "card (known_resources st) \<le> n_known st"
proof -
  have "card (known_resources st) \<le>
      card (snd ` set (compiled_resources st)) +
      card ((\<lambda>x. resource (snd x)) ` set (existing_resources st))"
    unfolding known_resources_def by (rule card_Un_le)
  also have "\<dots> \<le> card (set (compiled_resources st)) + card (set (existing_resources st))"
    by (intro add_mono card_image_le) simp_all
  also have "\<dots> \<le> n_known st"
    unfolding n_known_def by (intro add_mono card_length)
  finally show ?thesis .
qed

lemma climb_no_repeat:
  assumes m: "climb m st r = Some a" and stop: "goes_up st a = None"
    and ij: "i < j" "j \<le> m" and eq: "climb i st r = climb j st r"
  shows False
proof -
  from climb_defined_below [OF m ij(2)] obtain b where b: "climb j st r = Some b" by blast
  with eq have bi: "climb i st r = Some b" by simp
  from climb_add [of j "m - j" st r] b m ij have "climb (m - j) st b = Some a" by simp
  with climb_add [of i "m - j" st r] bi have early: "climb (i + (m - j)) st r = Some a" by simp
  from climb_add [of "i + (m - j)" 1 st r] early stop
  have none: "climb (Suc (i + (m - j))) st r = None" by simp
  from ij have "Suc (i + (m - j)) \<le> m" by arith
  from climb_defined_below [OF m this] none show False by simp
qed

lemma climb_bound:
  assumes m: "climb m st r = Some a" and stop: "goes_up st a = None"
    and r: "r \<in> known_resources st"
  shows "m < n_known st"
proof -
  let ?f = "\<lambda>i. climb i st r"
  have inj: "inj_on ?f {..m}"
  proof (rule inj_onI)
    fix i j assume "i \<in> {..m}" "j \<in> {..m}" "?f i = ?f j"
    then show "i = j"
      using climb_no_repeat [OF m stop, of i j] climb_no_repeat [OF m stop, of j i]
      by (cases i j rule: linorder_cases) auto
  qed
  have sub: "?f ` {..m} \<subseteq> Some ` known_resources st"
  proof
    fix y assume "y \<in> ?f ` {..m}"
    then obtain i where i: "i \<le> m" "y = climb i st r" by auto
    from climb_defined_below [OF m i(1)] obtain b where b: "climb i st r = Some b" by blast
    from climb_known [OF r b] i b show "y \<in> Some ` known_resources st" by simp
  qed
  have fin: "finite (known_resources st)" by (simp add: known_resources_def)
  have "Suc m = card (?f ` {..m})" using inj by (simp add: card_image)
  also have "\<dots> \<le> card (Some ` known_resources st)" using sub fin by (intro card_mono) simp_all
  also have "\<dots> \<le> card (known_resources st)" by (rule card_image_le [OF fin])
  also have "\<dots> \<le> n_known st" by (rule card_known)
  finally show ?thesis by simp
qed

lemma walk_up_stop: "goes_up st r = None \<Longrightarrow> \<exists>x. walk_up st r = Some x"
  by (subst walk_up.simps)
     (auto simp: goes_up_def split: sum.splits option.splits)

lemma chain_ends_walk_up: "chain_ends st r \<Longrightarrow> \<exists>x. walk_up st r = Some x"
  by (induction rule: chain_ends.induct) (simp_all add: walk_up_stop walk_up_up)

lemma walk_up_chain_ends:
  assumes "walk_up st r = Some x"
  shows "chain_ends st r"
proof (rule walk_up.raw_induct [where P = "\<lambda>st r x. chain_ends st r", OF _ assms], goal_cases)
  case (1 f st r x)
  show ?case
  proof (cases "goes_up st r")
    case None
    then show ?thesis by (rule chain_ends.stop)
  next
    case (Some p)
    with 1(2) have "f st p = Some x"
      by (auto simp: goes_up_def split: sum.splits option.splits)
    from 1(1) [OF this] Some show ?thesis by (rule chain_ends.up [rotated])
  qed
qed

lemma goes_up_a: "goes_up cyclic_parents client_a = Some client_b"
  by (simp add: goes_up_def cyclic_parents_def compiled_only_def client_a_def client_b_def
      bundle_client_def namespace_def parent_def get_resource_by_reference_def reference_def)

lemma goes_up_b: "goes_up cyclic_parents client_b = Some client_a"
  by (simp add: goes_up_def cyclic_parents_def compiled_only_def client_a_def client_b_def
      bundle_client_def namespace_def parent_def get_resource_by_reference_def reference_def)

lemma cyclic_never_ends:
  "chain_ends st r \<Longrightarrow> st = cyclic_parents \<Longrightarrow> r = client_a \<or> r = client_b \<Longrightarrow> False"
  by (induction rule: chain_ends.induct) (auto simp: goes_up_a goes_up_b)

lemma lookup_client_a:
  "get_resource_by_reference cyclic_parents (ResourceReference ''Client'' ''a'') = Some client_a"
  by (simp add: cyclic_parents_def compiled_only_def client_a_def client_b_def
      bundle_client_def get_resource_by_reference_def reference_def)

lemma lookup_client_leaf:
  "get_resource_by_reference rooted_parents (ResourceReference ''Client'' ''leaf'') = Some client_leaf"
  by (simp add: rooted_parents_def compiled_only_def client_root_def client_leaf_def
      bundle_client_def get_resource_by_reference_def reference_def)

lemma namespace_leaf:
  "namespace client_leaf = Inr (VRemote (ResourceReference ''Client'' ''leaf'') VNone)"
  by (simp add: client_leaf_def bundle_client_def namespace_def)

lemma parent_leaf: "parent rooted_parents client_leaf = Inr (Some client_root)"
  by (simp add: rooted_parents_def compiled_only_def client_root_def client_leaf_def
      bundle_client_def parent_def get_resource_by_reference_def reference_def)

lemma goes_up_leaf: "goes_up rooted_parents client_leaf = Some client_root"
  by (simp add: goes_up_def namespace_leaf parent_leaf)

lemma goes_up_root: "goes_up rooted_parents client_root = None"
  by (simp add: goes_up_def client_root_def bundle_client_def namespace_def)


lemma namespace_root:
  "namespace client_root =
     Inr (VRemote (ResourceReference ''Client'' ''root'') (VStr ''https://root.example''))"
  by (simp add: client_root_def bundle_client_def namespace_def)

lemma n_known_rooted: "n_known rooted_parents = 2"
  by (simp add: n_known_def rooted_parents_def compiled_only_def)

text \<open>
  Claim C2, as the code has it. \<open>Remote.link\<close> returns exactly in these cases: the preset
  \<open>remote\<close> is truthy, and is returned; the resource is unknown, and \<open>ValueError\<close> is
  raised; or the upward walk reaches, after fewer parent steps than there are known
  resources, a resource at which the loop is left: with its non-empty string namespace
  or the truthy \<open>remote\<close> of its \<open>Remote\<close> namespace, with \<open>ValueError\<close> when it has no
  known namespace and no parent, or with the exception of reading its namespace or of
  looking up its parent. In every other case the call does not return: a walk that
  exceeds the bound raises nothing.
\<close>

theorem Remote_link_outcomes:
  "Remote_link st k remote = Some x \<longleftrightarrow>
     (truthy remote \<and> x = Inr remote) \<or>
     (\<not> truthy remote \<and> get_resource_by_reference st k = None \<and> x = Inl ValueError) \<or>
     (\<not> truthy remote \<and>
        (\<exists>r m a. get_resource_by_reference st k = Some r \<and> m < n_known st \<and>
           climb m st r = Some a \<and> leaves st a x))"
proof (cases "truthy remote")
  case True
  then show ?thesis by (auto simp: Remote_link_def)
next
  case False
  show ?thesis
  proof (cases "get_resource_by_reference st k")
    case None
    with False show ?thesis
      by (auto simp: Remote_link_def require_resource_by_reference_def)
  next
    case (Some r)
    with False have rl: "Remote_link st k remote = walk_up st r"
      by (simp add: Remote_link_def require_resource_by_reference_def)
    have "walk_up st r = Some x \<longleftrightarrow>
        (\<exists>m a. m < n_known st \<and> climb m st r = Some a \<and> leaves st a x)"
    proof
      assume "walk_up st r = Some x"
      from walk_up_climb [OF this] obtain m a where ma: "climb m st r = Some a" "leaves st a x"
        by blast
      from climb_bound [OF ma(1) leaves_stops [OF ma(2)] lookup_known [OF Some]] ma
      show "\<exists>m a. m < n_known st \<and> climb m st r = Some a \<and> leaves st a x" by blast
    next
      assume "\<exists>m a. m < n_known st \<and> climb m st r = Some a \<and> leaves st a x"
      then show "walk_up st r = Some x" by (blast intro: climb_walk_up)
    qed
    with rl Some False show ?thesis by simp
  qed
qed

theorem Remote_link_outcomes_witness:
  "\<not> truthy VNone \<and>
   get_resource_by_reference rooted_parents (ResourceReference ''Client'' ''leaf'') = Some client_leaf \<and>
   1 < n_known rooted_parents \<and>
   climb 1 rooted_parents client_leaf = Some client_root \<and>
   leaves rooted_parents client_root (Inr (VStr ''https://root.example'')) \<and>
   Remote_link rooted_parents (ResourceReference ''Client'' ''leaf'') VNone =
     Some (Inr (VStr ''https://root.example''))"
proof -
  have c: "climb 1 rooted_parents client_leaf = Some client_root"
    by (simp add: goes_up_leaf)
  have l: "leaves rooted_parents client_root (Inr (VStr ''https://root.example''))"
    by (rule leaves.preset [OF namespace_root]) simp
  have n: "1 < n_known rooted_parents" by (simp add: n_known_rooted)
  have "Remote_link rooted_parents (ResourceReference ''Client'' ''leaf'') VNone =
     Some (Inr (VStr ''https://root.example''))"
    by (rule Remote_link_outcomes [THEN iffD2]) (use lookup_client_leaf c l n in auto)
  with c l n lookup_client_leaf show ?thesis by simp
qed

text \<open>
  Claim C2, as stated, fails: with two clients that name each other as parent and carry
  no \<open>remote\<close>, resolving the namespace of the first never returns; no error is raised.
\<close>

theorem cyclic_parents_never_resolve:
  "Remote_link cyclic_parents (ResourceReference ''Client'' ''a'') VNone = None"
proof -
  have "walk_up cyclic_parents client_a = None"
    using walk_up_chain_ends cyclic_never_ends by (cases "walk_up cyclic_parents client_a") blast+
  with lookup_client_a show ?thesis
    by (simp add: Remote_link_def require_resource_by_reference_def)
qed









section \<open>Placement of new resources\<close>

lemma create_resource_path_from_0:
  "create_resource_path_from exists prefix 0 =
     (if exists (prefix @ ''.yaml'') then Inl TypeError else Inr (prefix @ ''.yaml''))"
  by (simp add: suffix_or_empty_def)

text \<open>
  Claim C6: a new resource is to be stored under \<open>kind/name\<close>, with a numeric suffix
  counted up until the path is unused. The new client \<open>acme\<close> goes to
  \<open>/state/resources/Client/acme.yaml\<close> when that path is free; when it is taken, the
  second turn of the loop concatenates the integer suffix to the string prefix and
  \<open>create_resource_path\<close> raises \<open>TypeError\<close>: no suffixed path is ever produced.
\<close>

theorem create_resource_path_occupied:
  "new_resource_path nothing_exists ''/state/resources'' ''/state/secrets''
     (reference acme_client) acme_client = Inr ''/state/resources/Client/acme.yaml'' \<and>
   occupied ''/state/resources/Client/acme.yaml'' \<and>
   new_resource_path occupied ''/state/resources'' ''/state/secrets''
     (reference acme_client) acme_client = Inl TypeError"
  by (simp add: new_resource_path_def reference_def create_resource_path_def acme_client_def
      bundle_client_def os_path_join_def join2_def occupied_def nothing_exists_def
      suffix_or_empty_def)

section \<open>Exhaustive duplicate detection\<close>










































end
